theory Spec2Isabelle
  imports Complex_Main "HOL-Library.Multiset"
begin

section \<open>Data model\<close>

text \<open>
  The dictionary built by \<^verbatim>\<open>_clean_row_data\<close>: one vehicle listing, with the keys of
  the source as fields. A Python string is a \<open>string\<close> here (its bytes in UTF-8, say);
  the program itself only compares strings and tests them for emptiness, everything else
  is done by builtins.
\<close>

record car =
  price :: int
  brand :: string
  model :: string
  year :: int
  title_status :: string
  mileage :: int
  color :: string

text \<open>
  A row of \<^verbatim>\<open>csv.DictReader\<close>: a dictionary from column names to cells. A cell is a
  string, or \<^verbatim>\<open>None\<close> when the line of the file is shorter than the header.
\<close>

datatype cell = Str string | PyNone

type_synonym row = "string \<rightharpoonup> cell"

text \<open>The exceptions the modelled code can meet.\<close>

datatype error =
  ValueError | TypeError | OverflowError | ZeroDivisionError | KeyError | SystemExit

text \<open>
  A Python float: a finite value (read as the real number it denotes; rounding is not
  modelled), an infinity, or NaN.
\<close>

datatype pyfloat = Finite real | PosInf | NegInf | NaN

text \<open>
  The string builtins of Python that the program calls are parameters of the model:
  \<^verbatim>\<open>float(s)\<close> and \<^verbatim>\<open>int(s)\<close> on a string (\<open>None\<close> is \<^verbatim>\<open>ValueError\<close>),
  \<^verbatim>\<open>s.strip()\<close> and \<^verbatim>\<open>s.lower()\<close>. Every theorem holds for all of their values.
\<close>

record builtins =
  py_float :: "string \<Rightarrow> pyfloat option"
  py_int :: "string \<Rightarrow> int option"
  py_strip :: "string \<Rightarrow> string"
  py_lower :: "string \<Rightarrow> string"

text \<open>\<^verbatim>\<open>float(row.get(k, 0))\<close>: the default is the integer 0, \<^verbatim>\<open>float(None)\<close> is a \<^verbatim>\<open>TypeError\<close>.\<close>

definition float_get :: "builtins \<Rightarrow> row \<Rightarrow> string \<Rightarrow> error + pyfloat" where
  "float_get B r k =
     (case r k of
        None \<Rightarrow> Inr (Finite 0)
      | Some PyNone \<Rightarrow> Inl TypeError
      | Some (Str s) \<Rightarrow> (case py_float B s of None \<Rightarrow> Inl ValueError | Some f \<Rightarrow> Inr f))"

text \<open>\<^verbatim>\<open>int(row.get(k, 0))\<close>.\<close>

definition int_get :: "builtins \<Rightarrow> row \<Rightarrow> string \<Rightarrow> error + int" where
  "int_get B r k =
     (case r k of
        None \<Rightarrow> Inr 0
      | Some PyNone \<Rightarrow> Inl TypeError
      | Some (Str s) \<Rightarrow> (case py_int B s of None \<Rightarrow> Inl ValueError | Some i \<Rightarrow> Inr i))"

text \<open>\<^verbatim>\<open>str(row.get(k, d))\<close>: \<^verbatim>\<open>str(None)\<close> is the text \<^verbatim>\<open>None\<close>.\<close>

definition str_get :: "row \<Rightarrow> string \<Rightarrow> string \<Rightarrow> string" where
  "str_get r k d = (case r k of None \<Rightarrow> d | Some PyNone \<Rightarrow> ''None'' | Some (Str s) \<Rightarrow> s)"

text \<open>\<^verbatim>\<open>x < 0\<close> on a float: false for NaN.\<close>

fun float_negative :: "pyfloat \<Rightarrow> bool" where
  "float_negative (Finite x) = (x < 0)"
| "float_negative NegInf = True"
| "float_negative PosInf = False"
| "float_negative NaN = False"

text \<open>
  \<^verbatim>\<open>int(x)\<close> on a float truncates towards zero; it raises \<^verbatim>\<open>OverflowError\<close> on an
  infinity and \<^verbatim>\<open>ValueError\<close> on NaN.
\<close>

fun int_of_float :: "pyfloat \<Rightarrow> error + int" where
  "int_of_float (Finite x) = Inr (if 0 \<le> x then \<lfloor>x\<rfloor> else \<lceil>x\<rceil>)"
| "int_of_float PosInf = Inl OverflowError"
| "int_of_float NegInf = Inl OverflowError"
| "int_of_float NaN = Inl ValueError"

section \<open>Record Normalizer\<close>

text \<open>
  Sequencing of computations that may raise: the first exception ends the computation.
\<close>

definition and_then :: "error + 'a \<Rightarrow> ('a \<Rightarrow> error + 'b) \<Rightarrow> error + 'b" where
  "and_then m f = (case m of Inl e \<Rightarrow> Inl e | Inr x \<Rightarrow> f x)"

text \<open>
  The body of the \<^verbatim>\<open>try\<close> block of \<^verbatim>\<open>CarRankingSystem._clean_row_data\<close>.
  \<open>Inr None\<close> is \<^verbatim>\<open>return None\<close>, \<open>Inr (Some c)\<close> the returned dictionary,
  \<open>Inl e\<close> a raised exception. The dictionary display evaluates \<^verbatim>\<open>int(price)\<close>
  before \<^verbatim>\<open>int(mileage)\<close>.
\<close>

definition clean_row_try :: "builtins \<Rightarrow> row \<Rightarrow> error + car option" where
  "clean_row_try B r =
     and_then (float_get B r ''price'') (\<lambda>price_f.
     and_then (float_get B r ''mileage'') (\<lambda>mileage_f.
     and_then (int_get B r ''year'') (\<lambda>year_i.
       if float_negative price_f \<or> float_negative mileage_f \<or> year_i < 1900 \<or> year_i > 2025
       then Inr None
       else
         let brand_s = py_lower B (py_strip B (str_get r ''brand'' ''''));
             model_s = py_strip B (str_get r ''model'' '''');
             color_s = py_strip B (str_get r ''color'' ''unknown'');
             title_status_s = py_lower B (py_strip B (str_get r ''title_status'' ''''))
         in if brand_s = [] \<or> model_s = [] then Inr None
            else
              and_then (int_of_float price_f) (\<lambda>price_i.
              and_then (int_of_float mileage_f) (\<lambda>mileage_i.
                Inr (Some \<lparr>price = price_i, brand = brand_s, model = model_s, year = year_i,
                           title_status = title_status_s, mileage = mileage_i,
                           color = color_s\<rparr>))))))"

text \<open>
  \<^verbatim>\<open>CarRankingSystem._clean_row_data\<close>: the \<^verbatim>\<open>try\<close> block under its handler
  \<^verbatim>\<open>except (ValueError, TypeError): return None\<close>. Any other exception leaves the
  function.
\<close>

definition clean_row_data :: "builtins \<Rightarrow> row \<Rightarrow> error + car option" where
  "clean_row_data B r =
     (case clean_row_try B r of
        Inl e \<Rightarrow> if e = ValueError \<or> e = TypeError then Inr None else Inl e
      | Inr cleaned \<Rightarrow> Inr cleaned)"

section \<open>Brand Index and loading\<close>

text \<open>
  \<^verbatim>\<open>cars_by_brand\<close> is a Python dictionary, which keeps its keys in insertion order: an
  association list with one entry per brand. \<open>index_add\<close> is the body of the loop of
  \<^verbatim>\<open>_organize_by_brand\<close>.
\<close>

type_synonym brand_index = "(string \<times> car list) list"

fun index_add :: "brand_index \<Rightarrow> car \<Rightarrow> brand_index" where
  "index_add [] c = [(brand c, [c])]"
| "index_add ((b, cs) # rest) c =
     (if b = brand c then (b, cs @ [c]) # rest else (b, cs) # index_add rest c)"

definition organize_by_brand :: "car list \<Rightarrow> brand_index" where
  "organize_by_brand cars = foldl index_add [] cars"

text \<open>\<^verbatim>\<open>self.cars_by_brand.get(brand, [])\<close>.\<close>

definition brand_get :: "brand_index \<Rightarrow> string \<Rightarrow> car list" where
  "brand_get idx b = (case map_of idx b of None \<Rightarrow> [] | Some cs \<Rightarrow> cs)"

text \<open>The mutable state of a \<^verbatim>\<open>CarRankingSystem\<close>, as \<^verbatim>\<open>__init__\<close> creates it.\<close>

record system =
  cars_data :: "car list"
  cars_by_brand :: brand_index

definition init_system :: system where
  "init_system = \<lparr>cars_data = [], cars_by_brand = []\<rparr>"

text \<open>
  The loop of \<^verbatim>\<open>load_data\<close> over the rows of the reader, threading \<^verbatim>\<open>self.cars_data\<close>
  and \<^verbatim>\<open>skipped_rows\<close>. An exception other than \<^verbatim>\<open>ValueError\<close> ends the loop; the
  records appended so far stay in \<^verbatim>\<open>self.cars_data\<close>.
\<close>

fun read_rows :: "builtins \<Rightarrow> row list \<Rightarrow> car list \<Rightarrow> nat \<Rightarrow> (error + nat) \<times> car list" where
  "read_rows B [] data skipped = (Inr skipped, data)"
| "read_rows B (r # rows) data skipped =
     (case clean_row_data B r of
        Inr (Some cleaned_row) \<Rightarrow> read_rows B rows (data @ [cleaned_row]) skipped
      | Inr None \<Rightarrow> read_rows B rows data (skipped + 1)
      | Inl e \<Rightarrow> (if e = ValueError then read_rows B rows data (skipped + 1) else (Inl e, data)))"

text \<open>
  \<^verbatim>\<open>CarRankingSystem.load_data\<close>. The file is given as the rows its reader yields, or
  \<open>None\<close> when it does not exist (\<^verbatim>\<open>FileNotFoundError\<close>). The result is the returned
  flag and the state after the call.
\<close>

definition load_data :: "builtins \<Rightarrow> row list option \<Rightarrow> system \<Rightarrow> bool \<times> system" where
  "load_data B file s =
     (case file of
        None \<Rightarrow> (False, s)
      | Some rows \<Rightarrow>
          (case read_rows B rows (cars_data s) 0 of
             (Inl e, data) \<Rightarrow> (False, s\<lparr>cars_data := data\<rparr>)
           | (Inr skipped_rows, data) \<Rightarrow>
               if data = [] then (False, s\<lparr>cars_data := data\<rparr>)
               else (True, s\<lparr>cars_data := data, cars_by_brand := organize_by_brand data\<rparr>)))"

section \<open>The loader of \<^verbatim>\<open>code.py\<close>\<close>

text \<open>
  In \<^verbatim>\<open>code.py\<close> a record is the row of the reader itself, in which the cells of
  \<^verbatim>\<open>price\<close> and \<^verbatim>\<open>mileage\<close> have been replaced by integers; the other cells stay as
  they were read.
\<close>

record code_car =
  code_price :: int
  code_mileage :: int
  code_cells :: row

text \<open>
  \<^verbatim>\<open>int(float(row[k]))\<close>: \<^verbatim>\<open>row[k]\<close> raises \<^verbatim>\<open>KeyError\<close> when the key is missing.
\<close>

definition int_float_item :: "builtins \<Rightarrow> row \<Rightarrow> string \<Rightarrow> error + int" where
  "int_float_item B r k =
     (case r k of
        None \<Rightarrow> Inl KeyError
      | Some PyNone \<Rightarrow> Inl TypeError
      | Some (Str s) \<Rightarrow>
          (case py_float B s of None \<Rightarrow> Inl ValueError | Some f \<Rightarrow> int_of_float f))"

text \<open>
  The body of the \<^verbatim>\<open>try\<close> block in the loop of \<^verbatim>\<open>load_data\<close> of \<^verbatim>\<open>code.py\<close>: the
  converted row.
\<close>

definition code_convert_row :: "builtins \<Rightarrow> row \<Rightarrow> error + code_car" where
  "code_convert_row B r =
     and_then (int_float_item B r ''price'') (\<lambda>p.
     and_then (int_float_item B r ''mileage'') (\<lambda>m.
       Inr \<lparr>code_price = p, code_mileage = m, code_cells = r\<rparr>))"

text \<open>
  The loop over the rows: \<^verbatim>\<open>except ValueError\<close> skips the row, any other exception ends
  the program.
\<close>

fun code_read_rows :: "builtins \<Rightarrow> row list \<Rightarrow> code_car list \<Rightarrow> error + code_car list" where
  "code_read_rows B [] data = Inr data"
| "code_read_rows B (r # rows) data =
     (case code_convert_row B r of
        Inr converted \<Rightarrow> code_read_rows B rows (data @ [converted])
      | Inl e \<Rightarrow> (if e = ValueError then code_read_rows B rows data else Inl e))"

text \<open>
  The second loop of \<^verbatim>\<open>load_data\<close> of \<^verbatim>\<open>code.py\<close>: the records are added to the
  global \<^verbatim>\<open>cars_by_brand\<close> as it stands. The key is the cell of \<^verbatim>\<open>brand\<close> as read.
\<close>

type_synonym code_brand_index = "(cell \<times> code_car list) list"

fun code_index_add :: "code_brand_index \<Rightarrow> cell \<Rightarrow> code_car \<Rightarrow> code_brand_index" where
  "code_index_add [] b c = [(b, [c])]"
| "code_index_add ((b', cs) # rest) b c =
     (if b' = b then (b', cs @ [c]) # rest else (b', cs) # code_index_add rest b c)"

fun code_organize :: "code_brand_index \<Rightarrow> code_car list \<Rightarrow> error + code_brand_index" where
  "code_organize idx [] = Inr idx"
| "code_organize idx (c # cs) =
     (case code_cells c ''brand'' of
        None \<Rightarrow> Inl KeyError
      | Some b \<Rightarrow> code_organize (code_index_add idx b c) cs)"

text \<open>
  The global variables of \<^verbatim>\<open>code.py\<close>, both empty when the module is loaded, and its
  \<^verbatim>\<open>load_data\<close>: \<^verbatim>\<open>cars_data\<close> is set to the empty list first, \<^verbatim>\<open>cars_by_brand\<close> is
  not. A missing file ends the program (\<^verbatim>\<open>exit(1)\<close>).
\<close>

record code_globals =
  code_cars_data :: "code_car list"
  code_cars_by_brand :: code_brand_index

definition code_init :: code_globals where
  "code_init = \<lparr>code_cars_data = [], code_cars_by_brand = []\<rparr>"

definition code_load_data :: "builtins \<Rightarrow> row list option \<Rightarrow> code_globals \<Rightarrow> error + code_globals" where
  "code_load_data B file g =
     (case file of
        None \<Rightarrow> Inl SystemExit
      | Some rows \<Rightarrow>
          and_then (code_read_rows B rows []) (\<lambda>data.
          and_then (code_organize (code_cars_by_brand g) data) (\<lambda>idx.
            Inr \<lparr>code_cars_data = data, code_cars_by_brand = idx\<rparr>)))"

section \<open>Filter Engine\<close>

text \<open>\<^verbatim>\<open>min(xs)\<close> and \<^verbatim>\<open>max(xs)\<close> on a list of integers raise \<^verbatim>\<open>ValueError\<close> on the empty list.\<close>

fun py_min :: "int list \<Rightarrow> error + int" where
  "py_min [] = Inl ValueError"
| "py_min (x # xs) = Inr (fold min xs x)"

fun py_max :: "int list \<Rightarrow> error + int" where
  "py_max [] = Inl ValueError"
| "py_max (x # xs) = Inr (fold max xs x)"

text \<open>\<^verbatim>\<open>i <= x\<close> between an integer and a float: false for NaN.\<close>

fun int_le_float :: "int \<Rightarrow> pyfloat \<Rightarrow> bool" where
  "int_le_float i (Finite x) = (real_of_int i \<le> x)"
| "int_le_float i PosInf = True"
| "int_le_float i NegInf = False"
| "int_le_float i NaN = False"

text \<open>
  \<^verbatim>\<open>CarRankingSystem.filter_cars\<close>. The arguments \<open>price_filter\<close> and \<open>year_filter\<close>
  are the values of the variables of these names: the user's answers to the two prompts,
  already stripped (the second is read only if it is asked for). The function assigns to
  no attribute of \<^verbatim>\<open>self\<close> and builds every list anew, so its only output is the
  returned list. The minima and maxima are computed for the printed ranges.
\<close>

definition filter_cars :: "builtins \<Rightarrow> system \<Rightarrow> string \<Rightarrow> string \<Rightarrow> string \<Rightarrow> error + car list" where
  "filter_cars B s brand_name price_filter year_filter =
     (let cars_available =
            filter (\<lambda>c. title_status c = ''clean vehicle'') (brand_get (cars_by_brand s) brand_name)
      in if cars_available = [] then Inr []
         else
           and_then (py_min (map price cars_available)) (\<lambda>min_p.
           and_then (py_max (map price cars_available)) (\<lambda>max_p.
             let cars_available =
                   (if price_filter \<noteq> [] then
                      (case py_float B price_filter of
                         Some max_price_filter \<Rightarrow>
                           filter (\<lambda>c. int_le_float (price c) max_price_filter) cars_available
                       | None \<Rightarrow> cars_available)
                    else cars_available)
             in if cars_available \<noteq> [] then
                  and_then (py_min (map year cars_available)) (\<lambda>min_year.
                  and_then (py_max (map year cars_available)) (\<lambda>max_year.
                    if year_filter \<noteq> [] then
                      (case py_int B year_filter of
                         Some min_year_filter \<Rightarrow>
                           Inr (filter (\<lambda>c. year c \<ge> min_year_filter) cars_available)
                       | None \<Rightarrow> Inr cars_available)
                    else Inr cars_available))
                else Inr cars_available)))"

text \<open>
  The thresholds in force, in the words of the specification: a threshold is active when
  the answer is not empty and parses; otherwise its stage lets every record through.
\<close>

definition price_ceiling :: "builtins \<Rightarrow> string \<Rightarrow> pyfloat option" where
  "price_ceiling B price_filter = (if price_filter = [] then None else py_float B price_filter)"

definition year_floor :: "builtins \<Rightarrow> string \<Rightarrow> int option" where
  "year_floor B year_filter = (if year_filter = [] then None else py_int B year_filter)"

definition is_clean :: "car \<Rightarrow> bool" where
  "is_clean c = (title_status c = ''clean vehicle'')"

definition price_within :: "pyfloat option \<Rightarrow> car \<Rightarrow> bool" where
  "price_within max_p c = (case max_p of None \<Rightarrow> True | Some m \<Rightarrow> int_le_float (price c) m)"

definition year_from :: "int option \<Rightarrow> car \<Rightarrow> bool" where
  "year_from floor_y c = (case floor_y of None \<Rightarrow> True | Some y \<Rightarrow> year c \<ge> y)"

section \<open>Ranking keys\<close>

text \<open>
  \<^verbatim>\<open>a / b\<close> between integers is true division: a float, or \<^verbatim>\<open>ZeroDivisionError\<close>.
  \<open>truediv_float\<close> is the same with a float divisor.
\<close>

definition truediv :: "int \<Rightarrow> int \<Rightarrow> error + real" where
  "truediv a b = (if b = 0 then Inl ZeroDivisionError else Inr (real_of_int a / real_of_int b))"

definition truediv_float :: "int \<Rightarrow> real \<Rightarrow> error + real" where
  "truediv_float a d = (if d = 0 then Inl ZeroDivisionError else Inr (real_of_int a / d))"

text \<open>
  \<^verbatim>\<open>a ** 0.5\<close> on an integer: the square root as a float, and a complex number when
  \<open>a\<close> is negative.
\<close>

datatype pynumber = PyFloat real | PyComplex

definition pow_half :: "int \<Rightarrow> pynumber" where
  "pow_half a = (if a < 0 then PyComplex else PyFloat (sqrt (real_of_int a)))"

text \<open>\<^verbatim>\<open>CarRankingSystem._get_value_score\<close>.\<close>

definition get_value_score :: "car \<Rightarrow> error + pynumber" where
  "get_value_score c =
     (let current_year = 2025;
          car_age = max 1 (current_year - year c)
      in case pow_half car_age of
           PyComplex \<Rightarrow> Inr PyComplex
         | PyFloat d \<Rightarrow> and_then (truediv_float (price c) d) (\<lambda>v. Inr (PyFloat v)))"

section \<open>Result Presenter: the aggregate statistics\<close>



text \<open>
  \<^verbatim>\<open>CarRankingSystem.display_results\<close>, as the data it prints: the message that nothing
  was found, or the listed records (each with its price per year of age, if the age is
  positive), the number of records not listed, and the average price of the summary line,
  if that line is printed. The limit is the default 10 in every call of the program.
\<close>

datatype display = NoCarsFound | Listing "(car \<times> real option) list" nat "real option"

definition price_per_year :: "car \<Rightarrow> error + real option" where
  "price_per_year c =
     (let current_year = 2025; age = current_year - year c
      in if age > 0 then and_then (truediv (price c) age) (\<lambda>v. Inr (Some v))
         else Inr None)"

fun listing_rows :: "car list \<Rightarrow> error + (car \<times> real option) list" where
  "listing_rows [] = Inr []"
| "listing_rows (c # cs) =
     and_then (price_per_year c) (\<lambda>v.
     and_then (listing_rows cs) (\<lambda>rows. Inr ((c, v) # rows)))"

definition display_results :: "car list \<Rightarrow> nat \<Rightarrow> error + display" where
  "display_results cars limit =
     (if cars = [] then Inr NoCarsFound
      else
        let total_cars = length cars;
            display_count = min limit total_cars
        in and_then (listing_rows (take display_count cars)) (\<lambda>rows.
             if length cars > 1 then
               and_then (truediv (sum_list (map price cars)) (int (length cars))) (\<lambda>avg.
                 Inr (Listing rows (total_cars - display_count) (Some avg)))
             else Inr (Listing rows (total_cars - display_count) None)))"

section \<open>Ranking Engine: the three-way partitioning quicksort\<close>

text \<open>
  \<^verbatim>\<open>CarRankingSystem.quicksort(arr, key_func, reverse)\<close> of \<^verbatim>\<open>DSA_main.py\<close>.
  The keys of the four ranking methods are integers (price, year, mileage) or a float
  that is never NaN (value score), so the key type is a linear order: exactly one of
  \<open><\<close>, \<open>=\<close>, \<open>>\<close> holds between two keys.

  The pivot is \<^verbatim>\<open>arr[len(arr) // 2]\<close>; the index is read only when
  \<open>2 \<le> length arr\<close>, where it is in range. The pivot itself lands in the middle
  group, so both recursive calls are on shorter lists.
\<close>

function quicksort :: "'a list \<Rightarrow> ('a \<Rightarrow> 'k::linorder) \<Rightarrow> bool \<Rightarrow> 'a list" where
  "quicksort arr key_func reverse =
     (if length arr \<le> 1 then arr
      else
        let pivot = arr ! (length arr div 2);
            pivot_value = key_func pivot
        in if reverse then
             quicksort (filter (\<lambda>x. key_func x > pivot_value) arr) key_func reverse
               @ filter (\<lambda>x. key_func x = pivot_value) arr
               @ quicksort (filter (\<lambda>x. key_func x < pivot_value) arr) key_func reverse
           else
             quicksort (filter (\<lambda>x. key_func x < pivot_value) arr) key_func reverse
               @ filter (\<lambda>x. key_func x = pivot_value) arr
               @ quicksort (filter (\<lambda>x. key_func x > pivot_value) arr) key_func reverse)"
  by pat_completeness auto

termination quicksort
proof -
  have shorter: "length (filter P arr) < length arr"
    if "\<not> length arr \<le> 1" and "\<not> P (arr ! (length arr div 2))"
    for P and arr :: "'a list"
  proof -
    have "arr ! (length arr div 2) \<in> set arr"
      using that(1) by (intro nth_mem) simp
    with that(2) show ?thesis
      by (meson length_filter_less)
  qed
  show ?thesis
  proof (relation "measure (\<lambda>(arr, _, _). length arr)", goal_cases)
    case 1
    show ?case by simp
  next
    case (2 arr key_func reverse pivot pivot_value)
    then show ?case by (simp add: shorter)
  next
    case (3 arr key_func reverse pivot pivot_value)
    then show ?case by (simp add: shorter)
  next
    case (4 arr key_func reverse pivot pivot_value)
    then show ?case by (simp add: shorter)
  next
    case (5 arr key_func reverse pivot pivot_value)
    then show ?case by (simp add: shorter)
  qed
qed

declare quicksort.simps [simp del]

text \<open>
  \<^verbatim>\<open>quicksort(arr, key_func)\<close> of \<^verbatim>\<open>code.py\<close>: ascending only, and the key of
  the pivot is computed again in each comparison.
\<close>

function code_quicksort :: "'a list \<Rightarrow> ('a \<Rightarrow> 'k::linorder) \<Rightarrow> 'a list" where
  "code_quicksort arr key_func =
     (if length arr \<le> 1 then arr
      else
        let pivot = arr ! (length arr div 2)
        in code_quicksort (filter (\<lambda>x. key_func x < key_func pivot) arr) key_func
             @ filter (\<lambda>x. key_func x = key_func pivot) arr
             @ code_quicksort (filter (\<lambda>x. key_func x > key_func pivot) arr) key_func)"
  by pat_completeness auto

termination code_quicksort
proof -
  have shorter: "length (filter P arr) < length arr"
    if "\<not> length arr \<le> 1" and "\<not> P (arr ! (length arr div 2))"
    for P and arr :: "'a list"
  proof -
    have "arr ! (length arr div 2) \<in> set arr"
      using that(1) by (intro nth_mem) simp
    with that(2) show ?thesis
      by (meson length_filter_less)
  qed
  show ?thesis
  proof (relation "measure (\<lambda>(arr, _). length arr)", goal_cases)
    case 1
    show ?case by simp
  next
    case (2 arr key_func pivot)
    then show ?case by (simp add: shorter)
  next
    case (3 arr key_func pivot)
    then show ?case by (simp add: shorter)
  qed
qed

declare code_quicksort.simps [simp del]

text \<open>
  The order of the requested direction, in the words of the specification: \<open>a\<close> sorts
  before \<open>b\<close> when it is smaller (ascending) or larger (descending).
\<close>

definition sorts_before :: "bool \<Rightarrow> 'k::linorder \<Rightarrow> 'k \<Rightarrow> bool" where
  "sorts_before reverse a b = (if reverse then a > b else a < b)"

section \<open>The invariants and validity conditions of the specification\<close>

text \<open>
  The invariants of a Record: price and mileage are not negative, the year lies between
  1900 and 2025, brand and model are not empty.
\<close>

definition record_invariants :: "car \<Rightarrow> bool" where
  "record_invariants c =
     (price c \<ge> 0 \<and> mileage c \<ge> 0 \<and> 1900 \<le> year c \<and> year c \<le> 2025
      \<and> brand c \<noteq> [] \<and> model c \<noteq> [])"

text \<open>
  A row whose field \<open>k\<close> is valid as an amount (it converts to a finite float that is
  not negative), whose year is valid (it converts to an integer in range), and whose
  brand and model are valid (not empty after trimming).
\<close>

definition valid_amount :: "builtins \<Rightarrow> row \<Rightarrow> string \<Rightarrow> bool" where
  "valid_amount B r k = (case float_get B r k of Inr (Finite x) \<Rightarrow> 0 \<le> x | _ \<Rightarrow> False)"

definition valid_year :: "builtins \<Rightarrow> row \<Rightarrow> bool" where
  "valid_year B r = (case int_get B r ''year'' of Inr y \<Rightarrow> 1900 \<le> y \<and> y \<le> 2025 | Inl e \<Rightarrow> False)"

definition valid_text :: "builtins \<Rightarrow> row \<Rightarrow> bool" where
  "valid_text B r =
     (py_lower B (py_strip B (str_get r ''brand'' '''')) \<noteq> []
      \<and> py_strip B (str_get r ''model'' '''') \<noteq> [])"

section \<open>Example data\<close>

text \<open>
  The builtins on the strings of the scenarios of the specification (the values Python
  gives there), and the rows of these scenarios. On any other string these sample
  functions do not parse (\<open>py_float\<close>, \<open>py_int\<close>) or return their argument, which
  is not said of Python: they serve to run the definitions on the rows below, and the
  general theorems are about every value of the builtins.
\<close>

definition scenario_builtins :: builtins where
  "scenario_builtins =
     \<lparr>py_float = (\<lambda>s. if s = ''15000'' then Some (Finite 15000)
                      else if s = ''12000'' then Some (Finite 12000)
                      else if s = ''30000'' then Some (Finite 30000)
                      else if s = ''45000'' then Some (Finite 45000)
                      else if s = ''-500'' then Some (Finite (- 500))
                      else None),
      py_int = (\<lambda>s. if s = ''2020'' then Some 2020
                    else if s = ''2018'' then Some 2018
                    else if s = ''1899'' then Some 1899
                    else None),
      py_strip = (\<lambda>s. s),
      py_lower = (\<lambda>s. if s = ''Toyota'' then ''toyota'' else s)\<rparr>"

definition camry_row :: row where
  "camry_row =
     [''price'' \<mapsto> Str ''15000'', ''year'' \<mapsto> Str ''2020'', ''brand'' \<mapsto> Str ''Toyota'',
      ''model'' \<mapsto> Str ''Camry'', ''title_status'' \<mapsto> Str ''clean vehicle'',
      ''mileage'' \<mapsto> Str ''30000'', ''color'' \<mapsto> Str ''Blue'']"

definition corolla_row :: row where
  "corolla_row =
     [''price'' \<mapsto> Str ''12000'', ''year'' \<mapsto> Str ''2018'', ''brand'' \<mapsto> Str ''Toyota'',
      ''model'' \<mapsto> Str ''Corolla'', ''title_status'' \<mapsto> Str ''clean vehicle'',
      ''mileage'' \<mapsto> Str ''45000'', ''color'' \<mapsto> Str ''Red'']"

definition camry :: car where
  "camry = \<lparr>price = 15000, brand = ''toyota'', model = ''Camry'', year = 2020,
            title_status = ''clean vehicle'', mileage = 30000, color = ''Blue''\<rparr>"

definition corolla :: car where
  "corolla = \<lparr>price = 12000, brand = ''toyota'', model = ''Corolla'', year = 2018,
              title_status = ''clean vehicle'', mileage = 45000, color = ''Red''\<rparr>"

definition negative_price_row :: row where
  "negative_price_row = camry_row(''price'' \<mapsto> Str ''-500'')"

definition old_year_row :: row where
  "old_year_row = camry_row(''year'' \<mapsto> Str ''1899'')"

definition no_price_row :: row where
  "no_price_row = camry_row(''price'' := None)"

definition no_mileage_row :: row where
  "no_mileage_row = camry_row(''mileage'' := None)"

definition no_year_row :: row where
  "no_year_row = camry_row(''year'' := None)"

definition code_camry :: code_car where
  "code_camry = \<lparr>code_price = 15000, code_mileage = 30000, code_cells = camry_row\<rparr>"

section \<open>Properties of the Ranking Engine\<close>

subsection \<open>Unfolding the sort\<close>

lemma quicksort_short: "length arr \<le> 1 \<Longrightarrow> quicksort arr key_func reverse = arr"
  by (simp add: quicksort.simps)

lemma quicksort_step:
  "\<not> length arr \<le> 1 \<Longrightarrow>
   quicksort arr key_func reverse =
     quicksort (filter (\<lambda>x. if reverse then key_func x > key_func (arr ! (length arr div 2))
                                else key_func x < key_func (arr ! (length arr div 2))) arr) key_func reverse
     @ filter (\<lambda>x. key_func x = key_func (arr ! (length arr div 2))) arr
     @ quicksort (filter (\<lambda>x. if reverse then key_func x < key_func (arr ! (length arr div 2))
                                else key_func x > key_func (arr ! (length arr div 2))) arr) key_func reverse"
  by (subst quicksort.simps) (simp add: Let_def)

text \<open>The sort of \<^verbatim>\<open>code.py\<close> is the ascending sort of \<^verbatim>\<open>DSA_main.py\<close>.\<close>

lemma code_quicksort_eq: "code_quicksort arr key_func = quicksort arr key_func False"
proof (induction arr key_func rule: code_quicksort.induct)
  case (1 arr key_func)
  show ?case
  proof (cases "length arr \<le> 1")
    case True
    then show ?thesis by (simp add: quicksort.simps code_quicksort.simps)
  next
    case False
    with 1 show ?thesis
      by (subst quicksort.simps, subst code_quicksort.simps) (simp add: Let_def)
  qed
qed

lemma pivot_in_arr: "\<not> length arr \<le> 1 \<Longrightarrow> arr ! (length arr div 2) \<in> set arr"
  by (intro nth_mem) simp

lemma partition_shorter:
  assumes "\<not> length arr \<le> 1" and "\<not> P (arr ! (length arr div 2))"
  shows "length (filter P arr) < length arr"
  using pivot_in_arr [OF assms(1)] assms(2) by (meson length_filter_less)

subsection \<open>Permutation\<close>

lemma mset_three_way:
  "mset (filter (\<lambda>x. f x < (v::'k::linorder)) xs) + mset (filter (\<lambda>x. f x = v) xs)
     + mset (filter (\<lambda>x. f x > v) xs) = mset xs"
  by (induction xs) auto

lemma mset_quicksort: "mset (quicksort arr key_func reverse) = mset arr"
proof (induction arr key_func reverse rule: quicksort.induct)
  case (1 arr key_func reverse)
  show ?case
  proof (cases "length arr \<le> 1")
    case True
    then show ?thesis by (simp add: quicksort_short)
  next
    case False
    define pv where "pv = key_func (arr ! (length arr div 2))"
    show ?thesis
    proof (cases reverse)
      case True
      with False 1 mset_three_way [of key_func pv arr] show ?thesis
        by (subst quicksort.simps) (simp add: Let_def pv_def add.commute add.left_commute)
    next
      case ascending: False
      with False 1 mset_three_way [of key_func pv arr] show ?thesis
        by (subst quicksort.simps) (simp add: Let_def pv_def add.commute add.left_commute)
    qed
  qed
qed

lemma set_quicksort: "set (quicksort arr key_func reverse) = set arr"
  using mset_quicksort [of arr key_func reverse] by (metis set_mset_mset)

lemma length_quicksort: "length (quicksort arr key_func reverse) = length arr"
  using mset_quicksort [of arr key_func reverse] by (metis size_mset)

text \<open>
  Claim C1. For every sequence of records, every ranking key and both directions, the
  quicksort returns a permutation of its input: the same multiset of records, hence the
  same length. This holds for the sort of \<^verbatim>\<open>DSA_main.py\<close> and for the one of
  \<^verbatim>\<open>code.py\<close>.
\<close>

theorem quicksort_permutation:
  "mset (quicksort arr key_func reverse) = mset arr
   \<and> length (quicksort arr key_func reverse) = length arr
   \<and> mset (code_quicksort arr key_func) = mset arr
   \<and> length (code_quicksort arr key_func) = length arr"
  by (simp add: mset_quicksort length_quicksort code_quicksort_eq)

theorem quicksort_permutation_witness:
  "mset (quicksort [camry, corolla, camry] year True) = mset [camry, corolla, camry]
   \<and> length (quicksort [camry, corolla, camry] year True) = 3
   \<and> length (code_quicksort [camry, corolla, camry] year) = 3"
  using quicksort_permutation [where arr = "[camry, corolla, camry]" and key_func = year and reverse = True]
  by simp

subsection \<open>Order\<close>

lemma sorted_wrt_all_pairs:
  "(\<And>x y. x \<in> set xs \<Longrightarrow> y \<in> set xs \<Longrightarrow> R x y) \<Longrightarrow> sorted_wrt R xs"
  by (induction xs) auto

lemma sorted_equal_part: "sorted (map f (filter (\<lambda>x. f x = (v::'k::linorder)) xs))"
  by (rule sorted_wrt_all_pairs) auto

lemma sorted_desc_equal_part:
  "sorted_wrt (\<ge>) (map f (filter (\<lambda>x. f x = (v::'k::linorder)) xs))"
  by (rule sorted_wrt_all_pairs) auto

lemma sorted_quicksort_asc: "sorted (map key_func (quicksort arr key_func False))"
proof (induction arr key_func "False" rule: quicksort.induct)
  case (1 arr key_func)
  show ?case
  proof (cases "length arr \<le> 1")
    case True
    then have "sorted (map key_func arr)"
      by (cases arr) (auto simp: le_Suc_eq)
    with True show ?thesis by (simp add: quicksort_short)
  next
    case False
    with 1 show ?thesis
      by (subst quicksort_step) (auto simp: sorted_append set_quicksort sorted_equal_part)
  qed
qed

lemma sorted_quicksort_desc: "sorted_wrt (\<ge>) (map key_func (quicksort arr key_func True))"
proof (induction arr key_func "True" rule: quicksort.induct)
  case (1 arr key_func)
  show ?case
  proof (cases "length arr \<le> 1")
    case True
    then have "sorted_wrt (\<ge>) (map key_func arr)"
      by (cases arr) (auto simp: le_Suc_eq)
    with True show ?thesis by (simp add: quicksort_short)
  next
    case False
    with 1 show ?thesis
      by (subst quicksort_step) (auto simp: sorted_wrt_append set_quicksort sorted_desc_equal_part)
  qed
qed

lemma quicksort_concat:
  assumes "1 < length arr"
  shows "quicksort arr key_func reverse =
     quicksort (filter (\<lambda>x. sorts_before reverse (key_func x) (key_func (arr ! (length arr div 2)))) arr)
         key_func reverse
       @ filter (\<lambda>x. key_func x = key_func (arr ! (length arr div 2))) arr
       @ quicksort (filter (\<lambda>x. sorts_before reverse (key_func (arr ! (length arr div 2))) (key_func x)) arr)
           key_func reverse"
proof -
  from assms have "\<not> length arr \<le> 1" by simp
  then show ?thesis
    by (subst quicksort_step) (simp_all add: sorts_before_def)
qed

text \<open>
  Claim C2. For every sequence of records, every ranking key and both directions, the
  output of the quicksort is ordered by the key in the requested direction: ascending
  gives non-decreasing keys, descending gives non-increasing keys. A sequence of length
  at most 1 is returned as it is, and a longer one is sorted(before) followed by the
  records whose key equals the key of the pivot at the middle index, followed by
  sorted(after). The sort of \<^verbatim>\<open>code.py\<close> is ascending.
\<close>

theorem quicksort_ordered:
  "sorted (map key_func (quicksort arr key_func False))
   \<and> sorted_wrt (\<ge>) (map key_func (quicksort arr key_func True))
   \<and> sorted (map key_func (code_quicksort arr key_func))
   \<and> (length arr \<le> 1 \<longrightarrow>
        quicksort arr key_func reverse = arr \<and> code_quicksort arr key_func = arr)
   \<and> (1 < length arr \<longrightarrow>
        quicksort arr key_func reverse =
          quicksort (filter (\<lambda>x. sorts_before reverse (key_func x) (key_func (arr ! (length arr div 2)))) arr)
              key_func reverse
            @ filter (\<lambda>x. key_func x = key_func (arr ! (length arr div 2))) arr
            @ quicksort (filter (\<lambda>x. sorts_before reverse (key_func (arr ! (length arr div 2))) (key_func x)) arr)
                key_func reverse)"
proof (intro conjI impI)
  show "sorted (map key_func (quicksort arr key_func False))"
    by (rule sorted_quicksort_asc)
  show "sorted_wrt (\<ge>) (map key_func (quicksort arr key_func True))"
    by (rule sorted_quicksort_desc)
  show "sorted (map key_func (code_quicksort arr key_func))"
    by (simp add: code_quicksort_eq sorted_quicksort_asc)
next
  assume "length arr \<le> 1"
  then show "quicksort arr key_func reverse = arr" "code_quicksort arr key_func = arr"
    by (simp_all add: code_quicksort_eq quicksort_short)
next
  assume "1 < length arr"
  then show "quicksort arr key_func reverse =
      quicksort (filter (\<lambda>x. sorts_before reverse (key_func x) (key_func (arr ! (length arr div 2)))) arr)
          key_func reverse
        @ filter (\<lambda>x. key_func x = key_func (arr ! (length arr div 2))) arr
        @ quicksort (filter (\<lambda>x. sorts_before reverse (key_func (arr ! (length arr div 2))) (key_func x)) arr)
            key_func reverse"
    by (rule quicksort_concat)
qed

theorem quicksort_ordered_witness:
  "length [camry] \<le> 1 \<and> quicksort [camry] price True = [camry]
   \<and> 1 < length [camry, corolla]
   \<and> quicksort [camry, corolla] price False = quicksort [corolla] price False @ [camry] @ quicksort [] price False
   \<and> sorted (map price (quicksort [camry, corolla] price False))
   \<and> sorted_wrt (\<ge>) (map year (quicksort [corolla, camry] year True))"
  using quicksort_ordered [where arr = "[camry]" and key_func = price and reverse = True]
    quicksort_ordered [where arr = "[camry, corolla]" and key_func = price and reverse = False]
    quicksort_ordered [where arr = "[corolla, camry]" and key_func = year and reverse = True]
  by (simp add: sorts_before_def quicksort.simps camry_def corolla_def)

subsection \<open>Stability\<close>

lemma filter_key_quicksort:
  "filter (\<lambda>x. key_func x = v) (quicksort arr key_func reverse) = filter (\<lambda>x. key_func x = v) arr"
proof (induction arr key_func reverse rule: quicksort.induct)
  case (1 arr key_func reverse)
  show ?case
  proof (cases "length arr \<le> 1")
    case True
    then show ?thesis by (simp add: quicksort_short)
  next
    case False
    define pv where "pv = key_func (arr ! (length arr div 2))"
    have lt: "filter (\<lambda>x. key_func x = v) (filter (\<lambda>x. key_func x < pv) arr)
              = (if v < pv then filter (\<lambda>x. key_func x = v) arr else [])"
      by (induction arr) auto
    have gt: "filter (\<lambda>x. key_func x = v) (filter (\<lambda>x. key_func x > pv) arr)
              = (if v > pv then filter (\<lambda>x. key_func x = v) arr else [])"
      by (induction arr) auto
    have eq: "filter (\<lambda>x. key_func x = v) (filter (\<lambda>x. key_func x = pv) arr)
              = (if v = pv then filter (\<lambda>x. key_func x = v) arr else [])"
      by (induction arr) auto
    show ?thesis
    proof (cases reverse)
      case True
      with False 1 lt gt eq show ?thesis
        by (subst quicksort_step) (auto simp: pv_def)
    next
      case ascending: False
      with False 1 lt gt eq show ?thesis
        by (subst quicksort_step) (auto simp: pv_def)
    qed
  qed
qed

text \<open>
  Claim C3. The quicksort is stable in both directions: for every key value, the records
  of the output with that key are the records of the input with that key, in the order
  of the input. So any two records with equal keys keep their relative order.
\<close>

theorem quicksort_stable:
  "filter (\<lambda>x. key_func x = v) (quicksort arr key_func reverse) = filter (\<lambda>x. key_func x = v) arr
   \<and> filter (\<lambda>x. key_func x = v) (code_quicksort arr key_func) = filter (\<lambda>x. key_func x = v) arr"
  by (simp add: filter_key_quicksort code_quicksort_eq)

theorem quicksort_stable_witness:
  "filter (\<lambda>x. year x = 2020) (quicksort [camry, corolla, camry\<lparr>color := ''Red''\<rparr>] year True)
     = [camry, camry\<lparr>color := ''Red''\<rparr>]"
  using quicksort_stable [where arr = "[camry, corolla, camry\<lparr>color := ''Red''\<rparr>]"
      and key_func = year and reverse = True and v = 2020]
  by (simp add: camry_def corolla_def)

subsection \<open>Reversal\<close>

lemma distinct_keys_equal_part:
  assumes "distinct (map f xs)" and "p \<in> set xs"
  shows "filter (\<lambda>x. f x = f p) xs = [p]"
  using assms
proof (induction xs)
  case Nil
  then show ?case by simp
next
  case (Cons a xs)
  show ?case
  proof (cases "a = p")
    case True
    with Cons.prems have "f p \<notin> f ` set xs" by simp
    then have "\<forall>x\<in>set xs. f x \<noteq> f p" by (metis imageI)
    then have "filter (\<lambda>x. f x = f p) xs = []" by (simp add: filter_empty_conv)
    with True show ?thesis by simp
  next
    case False
    with Cons.prems have "p \<in> set xs" "f a \<noteq> f p" by auto
    with Cons show ?thesis by simp
  qed
qed

lemma rev_quicksort_distinct:
  "distinct (map key_func arr) \<Longrightarrow> rev (quicksort arr key_func False) = quicksort arr key_func True"
proof (induction "length arr" arbitrary: arr rule: less_induct)
  case less
  show ?case
  proof (cases "length arr \<le> 1")
    case True
    then have "rev arr = arr" by (cases arr) (auto simp: le_Suc_eq)
    with True show ?thesis by (simp add: quicksort_short)
  next
    case False
    define p where "p = arr ! (length arr div 2)"
    define L where "L = filter (\<lambda>x. key_func x < key_func p) arr"
    define R where "R = filter (\<lambda>x. key_func x > key_func p) arr"
    have pin: "p \<in> set arr" unfolding p_def using False by (rule pivot_in_arr)
    have M: "filter (\<lambda>x. key_func x = key_func p) arr = [p]"
      using less.prems pin by (rule distinct_keys_equal_part)
    have "length L < length arr" "length R < length arr"
      unfolding L_def R_def p_def using False by (auto intro!: partition_shorter)
    moreover have "distinct (map key_func L)" "distinct (map key_func R)"
      unfolding L_def R_def using less.prems by (auto simp: distinct_map_filter)
    ultimately have IH: "rev (quicksort L key_func False) = quicksort L key_func True"
        "rev (quicksort R key_func False) = quicksort R key_func True"
      using less.hyps by blast+
    have "quicksort arr key_func False = quicksort L key_func False @ [p] @ quicksort R key_func False"
      using False M by (subst quicksort_step) (simp_all add: L_def R_def p_def)
    moreover have "quicksort arr key_func True = quicksort R key_func True @ [p] @ quicksort L key_func True"
      using False M by (subst quicksort_step) (simp_all add: L_def R_def p_def)
    ultimately show ?thesis using IH by simp
  qed
qed

text \<open>
  Claim C9. For every sequence of records and every ranking key whose values are pairwise
  distinct on that sequence, the reverse of the ascending sort is the descending sort.
\<close>

theorem reversed_ascending_is_descending:
  assumes "distinct (map key_func arr)"
  shows "rev (quicksort arr key_func False) = quicksort arr key_func True"
  using assms by (rule rev_quicksort_distinct)

theorem reversed_ascending_is_descending_witness:
  "distinct (map mileage [camry, corolla])
   \<and> rev (quicksort [camry, corolla] mileage False) = quicksort [camry, corolla] mileage True
   \<and> quicksort [camry, corolla] mileage True = [corolla, camry]"
proof -
  have d: "distinct (map mileage [camry, corolla])"
    by (simp add: camry_def corolla_def)
  have "quicksort [camry, corolla] mileage True = [corolla, camry]"
    by (simp add: quicksort.simps camry_def corolla_def)
  with d reversed_ascending_is_descending [OF d] show ?thesis by simp
qed

section \<open>Properties of the Record Normalizer\<close>

lemma and_then_Inr [simp]: "and_then (Inr x) f = f x"
  by (simp add: and_then_def)

lemma and_then_Inl [simp]: "and_then (Inl e) f = Inl e"
  by (simp add: and_then_def)

lemma and_then_eq_Inr:
  "and_then m f = Inr y \<longleftrightarrow> (\<exists>x. m = Inr x \<and> f x = Inr y)"
  by (cases m) auto

lemma int_of_float_nonneg:
  "int_of_float f = Inr i \<Longrightarrow> \<not> float_negative f \<Longrightarrow> 0 \<le> i"
  by (cases f) (auto split: if_splits)

lemma float_get_missing: "r k = None \<Longrightarrow> float_get B r k = Inr (Finite 0)"
  by (simp add: float_get_def)

lemma int_get_missing: "r k = None \<Longrightarrow> int_get B r k = Inr 0"
  by (simp add: int_get_def)

lemma float_get_error: "float_get B r k = Inl e \<Longrightarrow> e = ValueError \<or> e = TypeError"
  by (auto simp: float_get_def split: option.splits cell.splits)

text \<open>What an accepted row went through.\<close>

lemma clean_row_data_accepted:
  assumes "clean_row_data B r = Inr (Some c)"
  obtains pf mf where
    "float_get B r ''price'' = Inr pf" "float_get B r ''mileage'' = Inr mf"
    "int_get B r ''year'' = Inr (year c)"
    "\<not> float_negative pf" "\<not> float_negative mf" "1900 \<le> year c" "year c \<le> 2025"
    "int_of_float pf = Inr (price c)" "int_of_float mf = Inr (mileage c)"
    "brand c = py_lower B (py_strip B (str_get r ''brand'' ''''))" "brand c \<noteq> []"
    "model c = py_strip B (str_get r ''model'' '''')" "model c \<noteq> []"
proof -
  from assms have "clean_row_try B r = Inr (Some c)"
    by (auto simp: clean_row_data_def split: sum.splits if_splits)
  then show ?thesis
    unfolding clean_row_try_def Let_def
    by (auto simp: and_then_eq_Inr split: if_splits intro: that)
qed

lemma clean_row_data_rejects:
  assumes "float_get B r ''price'' = Inr pf" "float_get B r ''mileage'' = Inr mf"
    "int_get B r ''year'' = Inr y"
    "float_negative pf \<or> float_negative mf \<or> y < 1900 \<or> y > 2025
       \<or> py_lower B (py_strip B (str_get r ''brand'' '''')) = []
       \<or> py_strip B (str_get r ''model'' '''') = []"
  shows "clean_row_data B r = Inr None"
proof -
  have "clean_row_try B r = Inr None"
    using assms unfolding clean_row_try_def Let_def by auto
  then show ?thesis by (simp add: clean_row_data_def)
qed

text \<open>
  Claim C4. Every record the Normalizer produces satisfies the invariants of a Record:
  price and mileage are not negative, the year lies between 1900 and 2025, and brand and
  model, which are the trimmed (and for the brand lowercased) fields of the row, are not
  empty. A row whose converted values violate one of these is rejected: the result is
  \<^verbatim>\<open>None\<close> and no record is built from it.
\<close>

theorem normalizer_invariants:
  "(\<forall>c. clean_row_data B r = Inr (Some c) \<longrightarrow>
        record_invariants c
        \<and> brand c = py_lower B (py_strip B (str_get r ''brand'' ''''))
        \<and> model c = py_strip B (str_get r ''model'' ''''))
   \<and> (\<forall>pf mf y.
        float_get B r ''price'' = Inr pf \<and> float_get B r ''mileage'' = Inr mf
        \<and> int_get B r ''year'' = Inr y
        \<and> (float_negative pf \<or> float_negative mf \<or> y < 1900 \<or> y > 2025
           \<or> py_lower B (py_strip B (str_get r ''brand'' '''')) = []
           \<or> py_strip B (str_get r ''model'' '''') = [])
        \<longrightarrow> clean_row_data B r = Inr None)"
proof (intro conjI allI impI)
  fix c assume a: "clean_row_data B r = Inr (Some c)"
  from a show "record_invariants c"
    by (rule clean_row_data_accepted) (simp add: record_invariants_def int_of_float_nonneg)
  from a show "brand c = py_lower B (py_strip B (str_get r ''brand'' ''''))"
    by (rule clean_row_data_accepted)
  from a show "model c = py_strip B (str_get r ''model'' '''')"
    by (rule clean_row_data_accepted)
next
  fix pf mf y
  assume "float_get B r ''price'' = Inr pf \<and> float_get B r ''mileage'' = Inr mf
        \<and> int_get B r ''year'' = Inr y
        \<and> (float_negative pf \<or> float_negative mf \<or> y < 1900 \<or> y > 2025
           \<or> py_lower B (py_strip B (str_get r ''brand'' '''')) = []
           \<or> py_strip B (str_get r ''model'' '''') = [])"
  then show "clean_row_data B r = Inr None"
    using clean_row_data_rejects [of B r pf mf y] by blast
qed

lemma scenario_float_get:
  "float_get scenario_builtins camry_row ''price'' = Inr (Finite 15000)"
  "float_get scenario_builtins camry_row ''mileage'' = Inr (Finite 30000)"
  "float_get scenario_builtins negative_price_row ''price'' = Inr (Finite (- 500))"
  "float_get scenario_builtins negative_price_row ''mileage'' = Inr (Finite 30000)"
  "float_get scenario_builtins old_year_row ''price'' = Inr (Finite 15000)"
  "float_get scenario_builtins old_year_row ''mileage'' = Inr (Finite 30000)"
  "float_get scenario_builtins no_price_row ''mileage'' = Inr (Finite 30000)"
  "float_get scenario_builtins no_mileage_row ''price'' = Inr (Finite 15000)"
  by (simp_all add: float_get_def scenario_builtins_def camry_row_def negative_price_row_def
      old_year_row_def no_price_row_def no_mileage_row_def)

lemma scenario_int_get:
  "int_get scenario_builtins camry_row ''year'' = Inr 2020"
  "int_get scenario_builtins negative_price_row ''year'' = Inr 2020"
  "int_get scenario_builtins old_year_row ''year'' = Inr 1899"
  "int_get scenario_builtins no_price_row ''year'' = Inr 2020"
  "int_get scenario_builtins no_mileage_row ''year'' = Inr 2020"
  by (simp_all add: int_get_def scenario_builtins_def camry_row_def negative_price_row_def
      old_year_row_def no_price_row_def no_mileage_row_def)

lemma scenario_camry: "clean_row_data scenario_builtins camry_row = Inr (Some camry)"
  by (simp add: clean_row_data_def clean_row_try_def scenario_float_get scenario_int_get Let_def)
     (simp add: str_get_def scenario_builtins_def camry_row_def camry_def)

lemma scenario_corolla: "clean_row_data scenario_builtins corolla_row = Inr (Some corolla)"
  by (simp add: clean_row_data_def clean_row_try_def scenario_builtins_def corolla_row_def
      corolla_def float_get_def int_get_def str_get_def Let_def)

theorem normalizer_invariants_witness:
  "clean_row_data scenario_builtins camry_row = Inr (Some camry)
   \<and> record_invariants camry
   \<and> float_negative (Finite (- 500))
   \<and> clean_row_data scenario_builtins negative_price_row = Inr None
   \<and> clean_row_data scenario_builtins old_year_row = Inr None"
proof -
  have "record_invariants camry"
    using normalizer_invariants [of scenario_builtins camry_row] scenario_camry by blast
  moreover have "clean_row_data scenario_builtins negative_price_row = Inr None"
    using normalizer_invariants [of scenario_builtins negative_price_row]
      scenario_float_get(3,4) scenario_int_get(2)
    by (metis float_negative.simps(1) neg_less_0_iff_less zero_less_numeral)
  moreover have "clean_row_data scenario_builtins old_year_row = Inr None"
  proof -
    have "(1899::int) < 1900" by simp
    with normalizer_invariants [of scenario_builtins old_year_row]
      scenario_float_get(5,6) scenario_int_get(3)
    show ?thesis by blast
  qed
  ultimately show ?thesis using scenario_camry by simp
qed

text \<open>A row without a year is rejected, whatever its other fields are.\<close>

lemma clean_row_data_missing_year:
  assumes "r ''year'' = None"
  shows "clean_row_data B r = Inr None"
proof -
  have y: "int_get B r ''year'' = Inr 0" using assms by (rule int_get_missing)
  show ?thesis
  proof (cases "float_get B r ''price''")
    case (Inl e)
    with float_get_error [OF Inl] show ?thesis
      by (auto simp: clean_row_data_def clean_row_try_def)
  next
    case p: (Inr pf)
    show ?thesis
    proof (cases "float_get B r ''mileage''")
      case (Inl e)
      with p float_get_error [OF Inl] show ?thesis
        by (auto simp: clean_row_data_def clean_row_try_def)
    next
      case (Inr mf)
      with p y show ?thesis by (simp add: clean_row_data_def clean_row_try_def)
    qed
  qed
qed

lemma clean_row_data_valid:
  assumes "float_get B r ''price'' = Inr (Finite p)" "0 \<le> p"
    "float_get B r ''mileage'' = Inr (Finite m)" "0 \<le> m"
    "valid_year B r" "valid_text B r"
  shows "\<exists>c. clean_row_data B r = Inr (Some c) \<and> price c = \<lfloor>p\<rfloor> \<and> mileage c = \<lfloor>m\<rfloor>"
  using assms unfolding clean_row_data_def clean_row_try_def Let_def valid_year_def valid_text_def
  by (auto split: sum.splits)

lemma valid_amountE:
  assumes "valid_amount B r k"
  obtains x where "float_get B r k = Inr (Finite x)" "0 \<le> x"
  using assms unfolding valid_amount_def by (auto split: sum.splits pyfloat.splits)

text \<open>
  Claim C10. A row without a \<^verbatim>\<open>price\<close> key (or without a \<^verbatim>\<open>mileage\<close> key) whose other
  fields are valid is accepted, with 0 for the missing value. A row without a
  \<^verbatim>\<open>year\<close> key is rejected: the default 0 is outside 1900-2025.
\<close>

theorem missing_numeric_keys:
  "(r ''price'' = None \<and> valid_amount B r ''mileage'' \<and> valid_year B r \<and> valid_text B r
      \<longrightarrow> (\<exists>c. clean_row_data B r = Inr (Some c) \<and> price c = 0))
   \<and> (r ''mileage'' = None \<and> valid_amount B r ''price'' \<and> valid_year B r \<and> valid_text B r
      \<longrightarrow> (\<exists>c. clean_row_data B r = Inr (Some c) \<and> mileage c = 0))
   \<and> (r ''year'' = None \<longrightarrow> clean_row_data B r = Inr None)"
proof (intro conjI impI)
  assume a: "r ''price'' = None \<and> valid_amount B r ''mileage'' \<and> valid_year B r \<and> valid_text B r"
  then obtain m where "float_get B r ''mileage'' = Inr (Finite m)" "0 \<le> m"
    by (auto elim: valid_amountE)
  with a clean_row_data_valid [of B r 0 m] float_get_missing [of r "''price''" B]
  show "\<exists>c. clean_row_data B r = Inr (Some c) \<and> price c = 0" by auto
next
  assume a: "r ''mileage'' = None \<and> valid_amount B r ''price'' \<and> valid_year B r \<and> valid_text B r"
  then obtain p where "float_get B r ''price'' = Inr (Finite p)" "0 \<le> p"
    by (auto elim: valid_amountE)
  with a clean_row_data_valid [of B r p 0] float_get_missing [of r "''mileage''" B]
  show "\<exists>c. clean_row_data B r = Inr (Some c) \<and> mileage c = 0" by auto
next
  assume "r ''year'' = None"
  then show "clean_row_data B r = Inr None" by (rule clean_row_data_missing_year)
qed

theorem missing_numeric_keys_witness:
  "no_price_row ''price'' = None
   \<and> clean_row_data scenario_builtins no_price_row = Inr (Some (camry\<lparr>price := 0\<rparr>))
   \<and> no_mileage_row ''mileage'' = None
   \<and> clean_row_data scenario_builtins no_mileage_row = Inr (Some (camry\<lparr>mileage := 0\<rparr>))
   \<and> no_year_row ''year'' = None
   \<and> clean_row_data scenario_builtins no_year_row = Inr None"
proof -
  have text_ok: "valid_text scenario_builtins no_price_row" "valid_text scenario_builtins no_mileage_row"
    by (simp_all add: valid_text_def str_get_def scenario_builtins_def camry_row_def
        no_price_row_def no_mileage_row_def)
  have year_ok: "valid_year scenario_builtins no_price_row" "valid_year scenario_builtins no_mileage_row"
    by (simp_all add: valid_year_def scenario_int_get)
  have amount_ok: "valid_amount scenario_builtins no_price_row ''mileage''"
      "valid_amount scenario_builtins no_mileage_row ''price''"
    by (simp_all add: valid_amount_def scenario_float_get)
  have missing: "no_price_row ''price'' = None" "no_mileage_row ''mileage'' = None"
      "no_year_row ''year'' = None"
    by (simp_all add: no_price_row_def no_mileage_row_def no_year_row_def)
  have p: "clean_row_data scenario_builtins no_price_row = Inr (Some (camry\<lparr>price := 0\<rparr>))"
    by (simp add: clean_row_data_def clean_row_try_def float_get_missing missing
        scenario_float_get scenario_int_get Let_def)
       (simp add: str_get_def scenario_builtins_def camry_row_def camry_def no_price_row_def)
  have m: "clean_row_data scenario_builtins no_mileage_row = Inr (Some (camry\<lparr>mileage := 0\<rparr>))"
    by (simp add: clean_row_data_def clean_row_try_def float_get_missing missing
        scenario_float_get scenario_int_get Let_def)
       (simp add: str_get_def scenario_builtins_def camry_row_def camry_def no_mileage_row_def)
  from missing_numeric_keys [of no_price_row scenario_builtins] missing text_ok year_ok amount_ok
  have "\<exists>c. clean_row_data scenario_builtins no_price_row = Inr (Some c) \<and> price c = 0"
    by blast
  moreover from missing_numeric_keys [of no_mileage_row scenario_builtins] missing text_ok year_ok amount_ok
  have "\<exists>c. clean_row_data scenario_builtins no_mileage_row = Inr (Some c) \<and> mileage c = 0"
    by blast
  moreover from missing_numeric_keys [of no_year_row scenario_builtins] missing
  have "clean_row_data scenario_builtins no_year_row = Inr None"
    by blast
  ultimately show ?thesis using p m missing by simp
qed

section \<open>Properties of the Filter Engine\<close>

lemma py_min_nonempty: "xs \<noteq> [] \<Longrightarrow> \<exists>m. py_min xs = Inr m"
  by (cases xs) auto

lemma py_max_nonempty: "xs \<noteq> [] \<Longrightarrow> \<exists>m. py_max xs = Inr m"
  by (cases xs) auto

text \<open>The three stages of \<open>filter_cars\<close>, one after the other; no exception is raised.\<close>

lemma filter_cars_stages:
  "filter_cars B s b pf yf =
     Inr (filter (year_from (year_floor B yf))
            (filter (price_within (price_ceiling B pf))
               (filter is_clean (brand_get (cars_by_brand s) b))))"
proof -
  define xs where "xs = filter is_clean (brand_get (cars_by_brand s) b)"
  define ys where "ys = filter (price_within (price_ceiling B pf)) xs"
  have xs': "filter (\<lambda>c. title_status c = ''clean vehicle'') (brand_get (cars_by_brand s) b) = xs"
    by (simp add: xs_def is_clean_def [abs_def])
  have ys': "(if pf \<noteq> [] then
                (case py_float B pf of
                   Some m \<Rightarrow> filter (\<lambda>c. int_le_float (price c) m) xs
                 | None \<Rightarrow> xs)
              else xs) = ys"
    by (auto simp: ys_def price_within_def [abs_def] price_ceiling_def split: option.splits)
  have zs': "(if yf \<noteq> [] then
                (case py_int B yf of
                   Some y \<Rightarrow> Inr (filter (\<lambda>c. year c \<ge> y) ys)
                 | None \<Rightarrow> Inr ys)
              else Inr ys) = (Inr (filter (year_from (year_floor B yf)) ys) :: error + car list)"
    by (auto simp: year_from_def [abs_def] year_floor_def split: option.splits)
  show ?thesis
  proof (cases "xs = []")
    case True
    then show ?thesis
      unfolding filter_cars_def xs' Let_def by (simp add: xs_def [symmetric])
  next
    case False
    then obtain mn mx where m: "py_min (map price xs) = Inr mn" "py_max (map price xs) = Inr mx"
      using py_min_nonempty [of "map price xs"] py_max_nonempty [of "map price xs"] by auto
    show ?thesis
    proof (cases "ys = []")
      case True
      with False m show ?thesis
        unfolding filter_cars_def xs' Let_def ys'
        by (simp add: xs_def [symmetric] ys_def [symmetric])
    next
      case some_left: False
      then obtain yn yx where y: "py_min (map year ys) = Inr yn" "py_max (map year ys) = Inr yx"
        using py_min_nonempty [of "map year ys"] py_max_nonempty [of "map year ys"] by auto
      with False some_left m show ?thesis
        unfolding filter_cars_def xs' Let_def ys'
        by (simp add: zs' xs_def [symmetric] ys_def [symmetric])
    qed
  qed
qed

text \<open>
  Claim C5. For every sequence of records (the group of the chosen brand) and every
  combination of thresholds, the Filter Engine returns exactly the records of the input,
  in their order, that satisfy the conjunction of the predicates in force: the title
  status is the clean value, the price is at most the ceiling if there is one, the year
  is at least the floor if there is one. The result is that of the three stages applied
  in this order, a stage whose threshold is absent (an empty answer) lets every record
  through, and the result is a new list: the function returns nothing but this list.
\<close>

theorem filter_cars_subsequence:
  "filter_cars B s b pf yf =
     Inr (filter (\<lambda>c. is_clean c \<and> price_within (price_ceiling B pf) c \<and> year_from (year_floor B yf) c)
            (brand_get (cars_by_brand s) b))
   \<and> filter_cars B s b pf yf =
     Inr (filter (year_from (year_floor B yf))
            (filter (price_within (price_ceiling B pf))
               (filter is_clean (brand_get (cars_by_brand s) b))))
   \<and> filter (price_within None) xs = xs \<and> filter (year_from None) xs = xs
   \<and> price_ceiling B [] = None \<and> year_floor B [] = None"
  by (simp add: filter_cars_stages price_within_def year_from_def price_ceiling_def
      year_floor_def conj_commute conj_left_commute)

theorem filter_cars_subsequence_witness:
  "filter_cars scenario_builtins \<lparr>cars_data = [camry, corolla], cars_by_brand = [(''toyota'', [camry, corolla])]\<rparr>
      ''toyota'' ''12000'' '''' = Inr [corolla]
   \<and> filter_cars scenario_builtins \<lparr>cars_data = [camry, corolla], cars_by_brand = [(''toyota'', [camry, corolla])]\<rparr>
      ''toyota'' '''' ''2020'' = Inr [camry]"
  using filter_cars_subsequence [where B = scenario_builtins
      and s = "\<lparr>cars_data = [camry, corolla], cars_by_brand = [(''toyota'', [camry, corolla])]\<rparr>"
      and b = "''toyota''" and pf = "''12000''" and yf = "''''"]
    filter_cars_subsequence [where B = scenario_builtins
      and s = "\<lparr>cars_data = [camry, corolla], cars_by_brand = [(''toyota'', [camry, corolla])]\<rparr>"
      and b = "''toyota''" and pf = "''''" and yf = "''2020''"]
  by (simp add: is_clean_def price_within_def year_from_def price_ceiling_def year_floor_def
      brand_get_def scenario_builtins_def camry_def corolla_def)

section \<open>Properties of the value score\<close>

text \<open>
  Claim C8. For every record the age \<open>max 1 (2025 - year)\<close> is at least 1, so its square
  root is a float that is at least 1: the power is not complex, the division is not by
  zero, and the value score is the price divided by that root. For a record of the model
  year 2025 with the price 20000 the value score is 20000.
\<close>

theorem value_score_defined:
  "1 \<le> max 1 (2025 - year c)
   \<and> pow_half (max 1 (2025 - year c)) = PyFloat (sqrt (real_of_int (max 1 (2025 - year c))))
   \<and> 1 \<le> sqrt (real_of_int (max 1 (2025 - year c)))
   \<and> get_value_score c
       = Inr (PyFloat (real_of_int (price c) / sqrt (real_of_int (max 1 (2025 - year c)))))
   \<and> get_value_score (c\<lparr>year := 2025, price := 20000\<rparr>) = Inr (PyFloat 20000)"
proof -
  have a: "1 \<le> max 1 (2025 - year c)" by simp
  then have "1 \<le> real_of_int (max 1 (2025 - year c))" by linarith
  then have s: "1 \<le> sqrt (real_of_int (max 1 (2025 - year c)))" by simp
  have p: "pow_half (max 1 (2025 - year c)) = PyFloat (sqrt (real_of_int (max 1 (2025 - year c))))"
    using a by (simp add: pow_half_def)
  have g: "get_value_score c
      = Inr (PyFloat (real_of_int (price c) / sqrt (real_of_int (max 1 (2025 - year c)))))"
    using s p by (simp add: get_value_score_def truediv_float_def)
  have "get_value_score (c\<lparr>year := 2025, price := 20000\<rparr>) = Inr (PyFloat 20000)"
    by (simp add: get_value_score_def pow_half_def truediv_float_def)
  with a s p g show ?thesis by blast
qed

theorem value_score_defined_witness:
  "get_value_score (camry\<lparr>year := 2025, price := 20000\<rparr>) = Inr (PyFloat 20000)
   \<and> get_value_score (camry\<lparr>year := 2030\<rparr>) = Inr (PyFloat 15000)"
  using value_score_defined [of camry] value_score_defined [of "camry\<lparr>year := 2030\<rparr>"]
  by (simp add: camry_def)

section \<open>Properties of the aggregate statistics\<close>

lemma truediv_length: "xs \<noteq> [] \<Longrightarrow> \<exists>v. truediv a (int (length xs)) = Inr v"
  by (simp add: truediv_def)


lemma price_per_year_returns: "\<exists>v. price_per_year c = Inr v"
  by (simp add: price_per_year_def truediv_def Let_def)

lemma listing_rows_returns: "\<exists>rows. listing_rows cs = Inr rows"
proof (induction cs)
  case Nil
  show ?case by simp
next
  case (Cons c cs)
  then obtain rows where "listing_rows cs = Inr rows" by blast
  moreover obtain v where "price_per_year c = Inr v"
    using price_per_year_returns by blast
  ultimately show ?case by simp
qed

lemma display_results_returns: "\<exists>d. display_results cars limit = Inr d"
proof -
  obtain rows where "listing_rows (take (min limit (length cars)) cars) = Inr rows"
    using listing_rows_returns by blast
  then show ?thesis
    by (cases "cars = []") (simp_all add: display_results_def Let_def truediv_def)
qed








section \<open>Loading twice\<close>

lemma read_rows_append:
  "read_rows B rows (xs @ data) k
     = (fst (read_rows B rows data k), xs @ snd (read_rows B rows data k))"
proof (induction rows arbitrary: data k)
  case Nil
  show ?case by simp
next
  case (Cons r rows)
  show ?case
  proof (cases "clean_row_data B r")
    case (Inl e)
    then show ?thesis using Cons.IH [of data "k + 1"] by simp
  next
    case (Inr res)
    show ?thesis
    proof (cases res)
      case None
      with Inr show ?thesis using Cons.IH [of data "k + 1"] by simp
    next
      case (Some c)
      with Inr show ?thesis using Cons.IH [of "data @ [c]" k] by simp
    qed
  qed
qed

text \<open>
  \<open>load_data\<close> never empties \<^verbatim>\<open>self.cars_data\<close>: the collection after a load of an
  existing file is the collection before it, followed by the records that a load into an
  empty collection would give.
\<close>

lemma load_data_keeps_previous:
  "cars_data (snd (load_data B (Some rows) s)) = cars_data s @ snd (read_rows B rows [] 0)"
proof -
  have "read_rows B rows (cars_data s) 0
      = (fst (read_rows B rows [] 0), cars_data s @ snd (read_rows B rows [] 0))"
    using read_rows_append [of B rows "cars_data s" "[]" 0] by simp
  then show ?thesis
    by (auto simp: load_data_def split: sum.splits)
qed

lemma scenario_code_camry: "code_convert_row scenario_builtins camry_row = Inr code_camry"
  by (simp add: code_convert_row_def int_float_item_def scenario_builtins_def camry_row_def
      code_camry_def)

lemma code_camry_brand: "code_cells code_camry ''brand'' = Some (Str ''Toyota'')"
  by (simp add: code_camry_def camry_row_def)

text \<open>
  Claim C7 says that after every load the collection and the Brand Index hold exactly the
  rows accepted during that load. Neither loader does this. In \<^verbatim>\<open>DSA_main.py\<close> a second
  load of the one-row file of the Camry on the same system leaves the record of the first
  load in the collection, and the index rebuilt from it lists the record twice. In
  \<^verbatim>\<open>code.py\<close> the second load starts from an empty collection, but adds its record to
  the index of the first load.
\<close>

theorem load_data_twice_keeps_first_load:
  "load_data scenario_builtins (Some [camry_row]) init_system
     = (True, \<lparr>cars_data = [camry], cars_by_brand = [(''toyota'', [camry])]\<rparr>)
   \<and> load_data scenario_builtins (Some [camry_row])
       \<lparr>cars_data = [camry], cars_by_brand = [(''toyota'', [camry])]\<rparr>
     = (True, \<lparr>cars_data = [camry, camry], cars_by_brand = [(''toyota'', [camry, camry])]\<rparr>)
   \<and> code_load_data scenario_builtins (Some [camry_row]) code_init
     = Inr \<lparr>code_cars_data = [code_camry], code_cars_by_brand = [(Str ''Toyota'', [code_camry])]\<rparr>
   \<and> code_load_data scenario_builtins (Some [camry_row])
       \<lparr>code_cars_data = [code_camry], code_cars_by_brand = [(Str ''Toyota'', [code_camry])]\<rparr>
     = Inr \<lparr>code_cars_data = [code_camry],
            code_cars_by_brand = [(Str ''Toyota'', [code_camry, code_camry])]\<rparr>"
proof (intro conjI)
  show "load_data scenario_builtins (Some [camry_row]) init_system
     = (True, \<lparr>cars_data = [camry], cars_by_brand = [(''toyota'', [camry])]\<rparr>)"
    by (simp add: load_data_def scenario_camry init_system_def organize_by_brand_def camry_def)
  show "load_data scenario_builtins (Some [camry_row])
       \<lparr>cars_data = [camry], cars_by_brand = [(''toyota'', [camry])]\<rparr>
     = (True, \<lparr>cars_data = [camry, camry], cars_by_brand = [(''toyota'', [camry, camry])]\<rparr>)"
    by (simp add: load_data_def scenario_camry organize_by_brand_def camry_def)
  show "code_load_data scenario_builtins (Some [camry_row]) code_init
     = Inr \<lparr>code_cars_data = [code_camry], code_cars_by_brand = [(Str ''Toyota'', [code_camry])]\<rparr>"
    by (simp add: code_load_data_def scenario_code_camry code_init_def code_camry_brand)
  show "code_load_data scenario_builtins (Some [camry_row])
       \<lparr>code_cars_data = [code_camry], code_cars_by_brand = [(Str ''Toyota'', [code_camry])]\<rparr>
     = Inr \<lparr>code_cars_data = [code_camry],
            code_cars_by_brand = [(Str ''Toyota'', [code_camry, code_camry])]\<rparr>"
    by (simp add: code_load_data_def scenario_code_camry code_camry_brand)
qed

end
